theory Spec2Isabelle
  imports Complex_Main "HOL-Library.Multiset"
begin

section \<open>Empirical return periods of daily precipitation\<close>

text \<open>
  The notebook on synthetic precipitation builds a table \<open>df\<close> with the columns
  \<open>day\<close> and \<open>precipitation\<close>, keeps the wet days, sorts them by amount
  (largest first), numbers them and derives the return period, the probability of an
  event and the probability of exceedance within a year. The notebook on Tenerife
  turns a daily probability taken from a fitted distribution into a return period.

  The estimator is modelled twice. In exact arithmetic every float of the notebook is
  a \<^typ>\<open>real\<close> and every count a \<^typ>\<open>nat\<close>; this is the model of the formulas.
  In double precision every operation rounds its result to the nearest double; this is
  the model of the numbers the code prints, and it is given for the return period, the
  probability and the return period of the Tenerife notebook.
\<close>

subsection \<open>Tables\<close>

text \<open>A row of \<open>df\<close>: the day number and the amount of that day.\<close>

record observation =
  day :: nat
  precipitation :: real

text \<open>
  \<^verbatim>\<open>df = pd.DataFrame({'day': range(1, size + 1), 'precipitation': precipitation})\<close>
  The days are numbered from 1 in the order of the series.
\<close>

definition DataFrame :: "real list \<Rightarrow> observation list" where
  "DataFrame amounts =
     map (\<lambda>i. \<lparr>day = Suc i, precipitation = amounts ! i\<rparr>) [0..<length amounts]"

text \<open>\<^verbatim>\<open>dfwet = df[df.precipitation > 0]\<close>\<close>

definition dfwet :: "observation list \<Rightarrow> observation list" where
  "dfwet df = filter (\<lambda>r. 0 < precipitation r) df"

text \<open>
  What the notebook has computed after its last cell: the scalar \<open>p_wetdays\<close>, the
  sorted table with its three inserted columns, and the series of annual probabilities.
  The table is kept by columns, as pandas does; position \<open>i\<close> of every column belongs
  to row \<open>i\<close> of \<open>df_sorted\<close>.
\<close>

record estimate =
  p_wetdays :: real
  df_sorted :: "observation list"
  rank :: "nat list"
  return_period :: "real list"
  probability :: "real list"
  probability_annual_exceedance :: "real list"

text \<open>
  The two ways the notebook can stop: \<open>n_wet_days / n_days\<close> divides two Python
  integers, and \<open>DataFrame.insert\<close> refuses a column whose length differs from the
  table's.
\<close>

datatype error = ZeroDivisionError | ValueError

subsection \<open>Sorting\<close>

text \<open>
  \<^verbatim>\<open>df_sorted = dfwet.sort_values('precipitation', ascending=False)\<close>
  The sort is pandas' own and is called with its default algorithm (\<open>kind='quicksort'\<close>),
  so it is a parameter of the model. What every such sort delivers is a rearrangement
  of the rows with the amounts in descending order.
\<close>

definition sorts_descending ::
  "(observation list \<Rightarrow> observation list) \<Rightarrow> observation list \<Rightarrow> bool" where
  "sorts_descending sort_values xs \<longleftrightarrow>
     mset (sort_values xs) = mset xs \<and>
     sorted_wrt (\<lambda>a b. precipitation b \<le> precipitation a) (sort_values xs)"

text \<open>
  One sort that meets this description: insertion by descending amount, which keeps
  rows of equal amount in the order of the input.
\<close>

definition sort_values_stable :: "observation list \<Rightarrow> observation list" where
  "sort_values_stable xs = sort_key (\<lambda>r. - precipitation r) xs"

subsection \<open>The estimator\<close>

text \<open>
  The cells of the notebook in their order:
  \<^verbatim>\<open>
  dfwet = df[df.precipitation > 0]
  n_days = df.day.size
  n_wet_days = dfwet.day.size
  p_wetdays = n_wet_days / n_days
  df_sorted = dfwet.sort_values('precipitation', ascending=False)
  rank = np.arange(1, n_wet_days+1)
  df_sorted.insert(2, 'rank', rank)
  return_period = (n_wet_days + 1) / df_sorted['rank']
  probability = 1 / return_period
  probability_annual_exceedance = 1 - (1 - (df_sorted['probability'] * p_wetdays)) ** 365
  \<close>
\<close>

definition estimator ::
  "(observation list \<Rightarrow> observation list) \<Rightarrow> real list \<Rightarrow> error + estimate" where
  "estimator sort_values amounts =
     (let df = DataFrame amounts;
          wet = dfwet df;
          n_days = length df;
          n_wet_days = length wet
      in if n_days = 0 then Inl ZeroDivisionError
         else
           let p_wet = real n_wet_days / real n_days;
               sorted = sort_values wet;
               ranks = [1..<Suc n_wet_days]
           in if length ranks \<noteq> length sorted then Inl ValueError
              else
                let periods = map (\<lambda>m. real (n_wet_days + 1) / real m) ranks;
                    probabilities = map (\<lambda>t. 1 / t) periods;
                    annual = map (\<lambda>p. 1 - (1 - p * p_wet) ^ 365) probabilities
                in Inr \<lparr>p_wetdays = p_wet, df_sorted = sorted, rank = ranks,
                        return_period = periods, probability = probabilities,
                        probability_annual_exceedance = annual\<rparr>)"

text \<open>The two counts of the notebook, as functions of the series.\<close>

definition n_days :: "real list \<Rightarrow> nat" where
  "n_days amounts = length (DataFrame amounts)"

definition n_wet_days :: "real list \<Rightarrow> nat" where
  "n_wet_days amounts = length (dfwet (DataFrame amounts))"

subsection \<open>Double precision\<close>

text \<open>
  The columns of the notebook are numpy \<open>float64\<close> values. IEEE 754 fixes the result
  of a division: the quotient of the two doubles, rounded to the nearest double, a tie
  going to the double with the even significand. A finite double is a real number here;
  \<open>None\<close> stands for a result that is no finite double (an overflow or a division by
  zero), and what numpy goes on to compute from such a result is not modelled. The sign
  of zero is not modelled.

  \<open>log2_floor n\<close> is the position of the leading bit of \<open>n\<close>, and \<open>exponent x\<close> the
  binary exponent \<open>e\<close> of a positive \<open>x\<close>, with \<open>2^e \<le> x < 2^(e+1)\<close>.
\<close>

fun log2_floor :: "nat \<Rightarrow> nat" where
  "log2_floor n = (if n < 2 then 0 else Suc (log2_floor (n div 2)))"

declare log2_floor.simps [simp del]

definition pow2 :: "int \<Rightarrow> real" where
  "pow2 e = (if 0 \<le> e then 2 ^ nat e else 1 / 2 ^ nat (- e))"

definition exponent :: "real \<Rightarrow> int" where
  "exponent x =
     (if 1 \<le> x then int (log2_floor (nat \<lfloor>x\<rfloor>))
      else - int (Suc (log2_floor (nat \<lceil>1 / x\<rceil> - 1))))"

text \<open>Rounding to the nearest integer, a tie going to the even one.\<close>

definition round_half_even :: "real \<Rightarrow> int" where
  "round_half_even x =
     (let n = \<lfloor>x\<rfloor>
      in if x - of_int n < 1 / 2 then n
         else if 1 / 2 < x - of_int n then n + 1
         else if even n then n else n + 1)"

text \<open>
  The double nearest to a real number. A double has a significand of 53 bits, so in the
  binade of exponent \<open>e\<close> the doubles are the multiples of \<open>2^(e-52)\<close>; below
  \<open>2^(-1022)\<close> (the subnormal numbers) they are the multiples of \<open>2^(-1074)\<close>. A result of
  magnitude \<open>2^1024\<close> or more is infinite.
\<close>

definition float64 :: "real \<Rightarrow> real option" where
  "float64 x =
     (if x = 0 then Some 0
      else
        let e = max (exponent \<bar>x\<bar>) (- 1022);
            q = pow2 (e - 52);
            y = of_int (round_half_even (x / q)) * q
        in if \<bar>y\<bar> < 2 ^ 1024 then Some y else None)"

text \<open>Division of two finite doubles.\<close>

definition float64_div :: "real \<Rightarrow> real \<Rightarrow> real option" where
  "float64_div a b = (if b = 0 then None else float64 (a / b))"

text \<open>
  The two columns in double precision:
  \<^verbatim>\<open>
  rank = np.arange(1, n_wet_days+1)
  return_period = (n_wet_days + 1) / df_sorted['rank']
  probability = 1 / return_period
  \<close>
  The division of an integer by a column of integers converts both to \<open>float64\<close> first.
\<close>

definition return_period_float64 :: "real list \<Rightarrow> real option list" where
  "return_period_float64 amounts =
     (let n_wet_days = length (dfwet (DataFrame amounts));
          ranks = [1..<Suc n_wet_days]
      in map (\<lambda>m. case (float64 (real (n_wet_days + 1)), float64 (real m)) of
                   (Some a, Some b) \<Rightarrow> float64_div a b
                 | _ \<Rightarrow> None) ranks)"

definition probability_float64 :: "real list \<Rightarrow> real option list" where
  "probability_float64 amounts =
     map (\<lambda>t. case t of Some t \<Rightarrow> float64_div 1 t | None \<Rightarrow> None)
       (return_period_float64 amounts)"

subsection \<open>The model of the Tenerife notebook\<close>

text \<open>
  \<^verbatim>\<open>
  p_annual = 1 - (1 - p_daily*p_wet)**365
  return_period_model = 1/p_annual
  \<close>
  \<open>p_daily\<close> comes from the fitted distribution and \<open>p_wet\<close> from two counts; both are
  doubles and are inputs here. Every operation rounds its result to a double. The
  product, the two differences and the division are fixed by IEEE 754. The power is
  computed by the C library, which returns the double nearest to the exact power or a
  neighbour of it; the model takes the nearest. A zero \<open>p_annual\<close> gives an infinite
  return period, the result \<open>None\<close>.
\<close>

definition p_annual :: "real \<Rightarrow> real \<Rightarrow> real option" where
  "p_annual p_daily p_wet =
     Option.bind (float64 (p_daily * p_wet)) (\<lambda>x.
     Option.bind (float64 (1 - x)) (\<lambda>b.
     Option.bind (float64 (b ^ 365)) (\<lambda>w.
     float64 (1 - w))))"

definition return_period_model :: "real \<Rightarrow> real \<Rightarrow> real option" where
  "return_period_model p_daily p_wet =
     Option.bind (p_annual p_daily p_wet) (\<lambda>p. float64_div 1 p)"

section \<open>Basic facts\<close>

lemma length_DataFrame: "length (DataFrame amounts) = length amounts"
  by (simp add: DataFrame_def)

lemma DataFrame_eq_Nil: "DataFrame amounts = [] \<longleftrightarrow> amounts = []"
  by (simp add: DataFrame_def)

lemma n_days_eq: "n_days amounts = length amounts"
  by (simp add: n_days_def length_DataFrame)

lemma sorts_descending_length:
  "sorts_descending sort_values xs \<Longrightarrow> length (sort_values xs) = length xs"
  unfolding sorts_descending_def by (metis size_mset)

lemma estimator_returns:
  assumes "amounts \<noteq> []"
    and "sorts_descending sort_values (dfwet (DataFrame amounts))"
  shows "estimator sort_values amounts =
     Inr \<lparr>p_wetdays = real (n_wet_days amounts) / real (n_days amounts),
          df_sorted = sort_values (dfwet (DataFrame amounts)),
          rank = [1..<Suc (n_wet_days amounts)],
          return_period =
            map (\<lambda>m. real (n_wet_days amounts + 1) / real m) [1..<Suc (n_wet_days amounts)],
          probability =
            map (\<lambda>t. 1 / t)
              (map (\<lambda>m. real (n_wet_days amounts + 1) / real m) [1..<Suc (n_wet_days amounts)]),
          probability_annual_exceedance =
            map (\<lambda>p. 1 - (1 - p * (real (n_wet_days amounts) / real (n_days amounts))) ^ 365)
              (map (\<lambda>t. 1 / t)
                (map (\<lambda>m. real (n_wet_days amounts + 1) / real m)
                   [1..<Suc (n_wet_days amounts)]))\<rparr>"
proof -
  have a: "length (DataFrame amounts) \<noteq> 0"
    using assms(1) by (simp add: length_DataFrame)
  have b: "length [1..<Suc (length (dfwet (DataFrame amounts)))] =
      length (sort_values (dfwet (DataFrame amounts)))"
    using sorts_descending_length[OF assms(2)] length_upt[of 1 "Suc (length (dfwet (DataFrame amounts)))"]
    by (simp del: upt_Suc)
  show ?thesis
    unfolding estimator_def Let_def n_days_def n_wet_days_def
    by (simp only: a b if_False simp_thms)
qed

lemma sort_values_stable_sorts: "sorts_descending sort_values_stable xs"
  using sorted_sort_key[of "\<lambda>r. - precipitation r" xs]
  by (simp add: sorts_descending_def sort_values_stable_def sorted_map)

lemma n_wet_days_le: "n_wet_days amounts \<le> n_days amounts"
  by (simp add: n_wet_days_def n_days_def dfwet_def)

lemma wet_days_nonempty: "1 \<le> n_wet_days amounts \<Longrightarrow> amounts \<noteq> []"
  using n_wet_days_le[of amounts] by (auto simp: n_days_eq)

lemma arange_nth: "1 \<le> m \<Longrightarrow> m \<le> n \<Longrightarrow> [1..<Suc n] ! (m - 1) = m"
  using nth_upt[of 1 "m - 1" "Suc n"] by simp

lemma arange_index: "1 \<le> m \<Longrightarrow> m \<le> n \<Longrightarrow> m - 1 < length [1..<Suc n]"
  by (simp del: upt_Suc)

lemma estimator_columns:
  assumes "1 \<le> n_wet_days amounts"
    and "sorts_descending sort_values (dfwet (DataFrame amounts))"
  obtains r where "estimator sort_values amounts = Inr r"
    and "p_wetdays r = real (n_wet_days amounts) / real (n_days amounts)"
    and "df_sorted r = sort_values (dfwet (DataFrame amounts))"
    and "rank r = [1..<Suc (n_wet_days amounts)]"
    and "return_period r =
           map (\<lambda>m. real (n_wet_days amounts + 1) / real m) (rank r)"
    and "probability r = map (\<lambda>t. 1 / t) (return_period r)"
    and "probability_annual_exceedance r =
           map (\<lambda>p. 1 - (1 - p * p_wetdays r) ^ 365) (probability r)"
proof -
  let ?r = "projr (estimator sort_values amounts)"
  note e = estimator_returns[OF wet_days_nonempty[OF assms(1)] assms(2)]
  show thesis
    by (rule that[of ?r]) (simp_all only: e sum.sel estimate.simps)
qed

lemma columns_at_rank:
  assumes "1 \<le> m" and "m \<le> n"
    and "rank_col = [1..<Suc n]"
    and "period_col = map (\<lambda>m. real (n + 1) / real m) rank_col"
    and "prob_col = map (\<lambda>t. 1 / t) period_col"
    and "annual_col = map (\<lambda>p. 1 - (1 - p * w) ^ 365) prob_col"
  shows "rank_col ! (m - 1) = m"
    and "period_col ! (m - 1) = real (n + 1) / real m"
    and "prob_col ! (m - 1) = 1 / (period_col ! (m - 1))"
    and "annual_col ! (m - 1) = 1 - (1 - prob_col ! (m - 1) * w) ^ 365"
proof -
  note i = arange_index[OF assms(1,2)]
  show 1: "rank_col ! (m - 1) = m"
    unfolding assms(3) by (rule arange_nth[OF assms(1,2)])
  have l: "m - 1 < length rank_col"
    unfolding assms(3) by (rule i)
  show 2: "period_col ! (m - 1) = real (n + 1) / real m"
    unfolding assms(4) using l 1 by (simp only: nth_map)
  have l2: "m - 1 < length period_col"
    unfolding assms(4) using l by (simp only: length_map)
  show 3: "prob_col ! (m - 1) = 1 / (period_col ! (m - 1))"
    unfolding assms(5) using l2 by (simp only: nth_map)
  have l3: "m - 1 < length prob_col"
    unfolding assms(5) using l2 by (simp only: length_map)
  show "annual_col ! (m - 1) = 1 - (1 - prob_col ! (m - 1) * w) ^ 365"
    unfolding assms(6) using l3 by (simp only: nth_map)
qed

lemma estimator_at_rank:
  assumes "1 \<le> m" and "m \<le> n_wet_days amounts"
    and "sorts_descending sort_values (dfwet (DataFrame amounts))"
  obtains r where "estimator sort_values amounts = Inr r"
    and "p_wetdays r = real (n_wet_days amounts) / real (n_days amounts)"
    and "rank r ! (m - 1) = m"
    and "return_period r ! (m - 1) = real (n_wet_days amounts + 1) / real m"
    and "probability r ! (m - 1) = 1 / (return_period r ! (m - 1))"
    and "probability_annual_exceedance r ! (m - 1) =
           1 - (1 - probability r ! (m - 1) * p_wetdays r) ^ 365"
proof -
  have n: "1 \<le> n_wet_days amounts"
    using assms(1,2) by simp
  obtain r where r: "estimator sort_values amounts = Inr r"
    and w: "p_wetdays r = real (n_wet_days amounts) / real (n_days amounts)"
    and cols: "rank r = [1..<Suc (n_wet_days amounts)]"
      "return_period r = map (\<lambda>m. real (n_wet_days amounts + 1) / real m) (rank r)"
      "probability r = map (\<lambda>t. 1 / t) (return_period r)"
      "probability_annual_exceedance r =
         map (\<lambda>p. 1 - (1 - p * p_wetdays r) ^ 365) (probability r)"
    using estimator_columns[OF n assms(3)] by blast
  note at = columns_at_rank[OF assms(1,2) cols]
  show thesis
    by (rule that[OF r w at])
qed

lemma wet_fraction_bounds:
  assumes "1 \<le> n_wet_days amounts"
  shows "0 < real (n_wet_days amounts) / real (n_days amounts)"
    and "real (n_wet_days amounts) / real (n_days amounts) \<le> 1"
proof -
  have "n_wet_days amounts \<le> n_days amounts"
    by (rule n_wet_days_le)
  with assms have "0 < real (n_wet_days amounts)" "0 < real (n_days amounts)"
    "real (n_wet_days amounts) \<le> real (n_days amounts)"
    by simp_all
  then show "0 < real (n_wet_days amounts) / real (n_days amounts)"
    and "real (n_wet_days amounts) / real (n_days amounts) \<le> 1"
    by simp_all
qed

lemma annualized_inside_unit_interval:
  fixes x :: real
  assumes "0 < x" and "x < 1"
  shows "0 < 1 - (1 - x) ^ 365" and "1 - (1 - x) ^ 365 < 1"
proof -
  have a: "0 < 1 - x" "1 - x < 1"
    using assms by simp_all
  have "(1 - x) ^ 365 \<le> (1 - x) ^ 1"
    by (rule power_decreasing) (use a in simp_all)
  then have "(1 - x) ^ 365 < 1"
    using a by simp
  then show "0 < 1 - (1 - x) ^ 365"
    by simp
  have "0 < (1 - x) ^ 365"
    using a(1) by (rule zero_less_power)
  then show "1 - (1 - x) ^ 365 < 1"
    by simp
qed

lemma descending_sort_unique:
  assumes "sorts_descending sort_values xs"
    and "inj_on precipitation (set xs)"
  shows "sort_values xs = sort_values_stable xs"
proof -
  have m: "mset xs = mset (sort_values xs)"
    using assms(1) by (simp add: sorts_descending_def)
  have i: "inj_on (\<lambda>r. - precipitation r) (set xs)"
    using assms(2) by (simp add: inj_on_def)
  have s: "sorted (map (\<lambda>r. - precipitation r) (sort_values xs))"
    using assms(1) by (simp add: sorts_descending_def sorted_map)
  show ?thesis
    unfolding sort_values_stable_def by (rule sort_key_inj_key_eq[OF m i s, symmetric])
qed

lemma log2_floor_bounds:
  "0 < n \<Longrightarrow> 2 ^ log2_floor n \<le> n \<and> n < 2 ^ Suc (log2_floor n)"
proof (induction n rule: log2_floor.induct)
  case (1 n)
  show ?case
  proof (cases "n < 2")
    case True
    with "1.prems" have "n = 1" by simp
    then show ?thesis by (simp add: log2_floor.simps)
  next
    case False
    then have h: "0 < n div 2" by simp
    let ?k = "log2_floor (n div 2)"
    have ih: "2 ^ ?k \<le> n div 2" "n div 2 < 2 ^ Suc ?k"
      using "1.IH"[OF False h] by simp_all
    have e: "log2_floor n = Suc ?k"
      using False by (subst log2_floor.simps) simp
    have "2 * 2 ^ ?k \<le> n"
      using ih(1) by linarith
    moreover have "n < 2 * 2 ^ Suc ?k"
      using ih(2) by linarith
    ultimately show ?thesis
      unfolding e by simp
  qed
qed

lemma pow2_pos: "0 < pow2 e"
  by (simp add: pow2_def)

lemma pow2_of_nat: "pow2 (int k) = 2 ^ k"
  by (simp add: pow2_def)

lemma pow2_neg_nat: "pow2 (- int k) = 1 / 2 ^ k"
  by (cases "k = 0") (simp_all add: pow2_def)

lemma pow2_powi: "pow2 e = 2 powi e"
  by (simp add: pow2_def power_int_def inverse_eq_divide power_one_over)

lemma pow2_Suc: "pow2 (e + 1) = 2 * pow2 e"
  unfolding pow2_powi by (simp add: power_int_add)

lemma pow2_add: "pow2 (a + b) = pow2 a * pow2 b"
  unfolding pow2_powi by (simp add: power_int_add)

lemma pow2_mono: "a \<le> b \<Longrightarrow> pow2 a \<le> pow2 b"
  unfolding pow2_powi by (rule power_int_increasing) simp_all

lemma pow2_less_imp: "pow2 a < pow2 b \<Longrightarrow> a < b"
  using pow2_mono[of b a] by (cases "a < b") simp_all

lemma exponent_bounds:
  assumes "0 < x"
  shows "pow2 (exponent x) \<le> x" and "x < 2 * pow2 (exponent x)"
proof -
  have "pow2 (exponent x) \<le> x \<and> x < 2 * pow2 (exponent x)"
  proof (cases "1 \<le> x")
    case True
    let ?n = "nat \<lfloor>x\<rfloor>"
    have f: "1 \<le> \<lfloor>x\<rfloor>"
      using True by (simp add: le_floor_iff)
    then have r: "real ?n = of_int \<lfloor>x\<rfloor>"
      by simp
    have n: "0 < ?n" "real ?n \<le> x" "x < real ?n + 1"
      using f unfolding r by (simp, linarith, linarith)
    note b = log2_floor_bounds[OF n(1)]
    have e: "exponent x = int (log2_floor ?n)"
      using True by (simp add: exponent_def)
    have "(2::real) ^ log2_floor ?n \<le> real ?n"
      using b by (metis of_nat_le_iff of_nat_numeral of_nat_power)
    moreover have "real ?n + 1 \<le> 2 * 2 ^ log2_floor ?n"
    proof -
      have "?n + 1 \<le> 2 * 2 ^ log2_floor ?n"
        using b by simp
      then have "real (?n + 1) \<le> real (2 * 2 ^ log2_floor ?n)"
        by (rule of_nat_mono)
      then show ?thesis by simp
    qed
    ultimately show ?thesis
      unfolding e pow2_of_nat using n by linarith
  next
    case False
    let ?y = "1 / x"
    let ?c = "nat \<lceil>?y\<rceil>"
    have y: "1 < ?y"
      using False assms by simp
    then have g: "2 \<le> \<lceil>?y\<rceil>"
      by (simp add: le_ceiling_iff)
    then have r: "real ?c = of_int \<lceil>?y\<rceil>"
      by simp
    have cc: "real_of_int \<lceil>?y\<rceil> - 1 < ?y" "?y \<le> real_of_int \<lceil>?y\<rceil>"
      using ceiling_correct[of ?y] by simp_all
    have c: "2 \<le> ?c" "?y \<le> real ?c" "real ?c - 1 < ?y"
    proof -
      show "2 \<le> ?c" using g by linarith
      show "?y \<le> real ?c" unfolding r by (rule cc(2))
      show "real ?c - 1 < ?y" unfolding r by (rule cc(1))
    qed
    let ?k = "log2_floor (?c - 1)"
    have "0 < ?c - 1"
      using c(1) by linarith
    note b = log2_floor_bounds[OF this]
    have e: "exponent x = - int (Suc ?k)"
      using False by (simp add: exponent_def)
    have lo: "(2::real) ^ ?k \<le> real ?c - 1"
    proof -
      have "real (2 ^ ?k) \<le> real (?c - 1)"
        using b by (intro of_nat_mono) simp
      then show ?thesis using c(1) by (simp add: of_nat_diff)
    qed
    have hi: "real ?c \<le> 2 ^ Suc ?k"
    proof -
      have "?c \<le> 2 ^ Suc ?k"
        using b c(1) by linarith
      then have "real ?c \<le> real (2 ^ Suc ?k)"
        by (rule of_nat_mono)
      then show ?thesis by simp
    qed
    have "?y \<le> 2 ^ Suc ?k"
      using c(2) hi by linarith
    then have l: "1 / 2 ^ Suc ?k \<le> x"
      using assms by (simp add: field_simps)
    have "2 ^ ?k < ?y"
      using lo c(3) by linarith
    then have u: "x < 1 / 2 ^ ?k"
      using assms by (simp add: field_simps)
    have "2 * pow2 (- int (Suc ?k)) = 1 / 2 ^ ?k"
      unfolding pow2_neg_nat by simp
    with l u show ?thesis
      unfolding e by (simp add: pow2_neg_nat)
  qed
  then show "pow2 (exponent x) \<le> x" and "x < 2 * pow2 (exponent x)"
    by simp_all
qed

lemma round_half_even_error: "\<bar>of_int (round_half_even z) - z\<bar> \<le> 1 / 2"
proof -
  have "of_int \<lfloor>z\<rfloor> \<le> z" "z < of_int \<lfloor>z\<rfloor> + 1"
    by linarith+
  then show ?thesis
    unfolding round_half_even_def Let_def by (auto split: if_splits)
qed

lemma float64_within:
  assumes "pow2 (- 1022) \<le> x" and "x \<le> 2 ^ 1023"
  obtains y where "float64 x = Some y"
    and "x * (1 - 1 / 2 ^ 53) \<le> y" and "y \<le> x * (1 + 1 / 2 ^ 53)"
proof -
  have pos: "0 < x"
    using assms(1) pow2_pos[of "- 1022"] by linarith
  let ?e = "exponent x"
  note eb = exponent_bounds[OF pos]
  have "pow2 (- 1022) < pow2 (?e + 1)"
    using assms(1) eb(2) by (simp add: pow2_Suc)
  then have e: "max ?e (- 1022) = ?e"
    using pow2_less_imp[of "- 1022" "?e + 1"] by simp
  let ?q = "pow2 (?e - 52)"
  let ?r = "round_half_even (x / ?q)"
  let ?y = "of_int ?r * ?q"
  have q: "0 < ?q"
    by (rule pow2_pos)
  have "pow2 ?e = pow2 ((?e - 52) + 52)"
    by simp
  also have "\<dots> = ?q * 2 ^ 52"
    unfolding pow2_add by (simp add: pow2_def)
  finally have pe: "pow2 ?e = ?q * 2 ^ 52" .
  have "\<bar>of_int ?r - x / ?q\<bar> * ?q \<le> 1 / 2 * ?q"
    using round_half_even_error[of "x / ?q"] q by (intro mult_right_mono) simp_all
  moreover have "\<bar>of_int ?r - x / ?q\<bar> * ?q = \<bar>?y - x\<bar>"
  proof -
    have "\<bar>of_int ?r - x / ?q\<bar> * ?q = \<bar>(of_int ?r - x / ?q) * ?q\<bar>"
      using q by (simp add: abs_mult)
    also have "(of_int ?r - x / ?q) * ?q = ?y - x"
      using q by (simp add: field_simps)
    finally show ?thesis .
  qed
  ultimately have "\<bar>?y - x\<bar> \<le> ?q / 2"
    by simp
  moreover have "?q / 2 \<le> x / 2 ^ 53"
    using eb(1) pe by simp
  ultimately have err: "\<bar>?y - x\<bar> \<le> x / 2 ^ 53"
    by linarith
  have a1: "x * (1 - 1 / 2 ^ 53) = x - x / 2 ^ 53"
    and a2: "x * (1 + 1 / 2 ^ 53) = x + x / 2 ^ 53"
    by (simp_all add: algebra_simps)
  have lo: "x * (1 - 1 / 2 ^ 53) \<le> ?y" and hi: "?y \<le> x * (1 + 1 / 2 ^ 53)"
    unfolding a1 a2 using err by linarith+
  have "\<bar>?y\<bar> \<le> x * (1 + 1 / 2 ^ 53)"
    unfolding a2 using err pos by linarith
  also have "\<dots> \<le> 2 ^ 1023 * (1 + 1 / 2 ^ 53)"
    using assms(2) by (intro mult_right_mono) simp_all
  also have "\<dots> < 2 ^ 1024"
    by simp
  finally have fin: "\<bar>?y\<bar> < 2 ^ 1024" .
  have "float64 x = Some ?y"
    using pos fin e by (simp add: float64_def Let_def)
  then show thesis
    using lo hi by (rule that)
qed

lemma ratio_bounds:
  fixes l h :: real
  assumes "0 < l"
    and "l \<le> p" "p \<le> h" and "l \<le> b" "b \<le> h"
    and "l \<le> t" "t \<le> h" and "l \<le> a" "a \<le> h"
  shows "l * l / (h * h) \<le> p * b / (t * a)" and "p * b / (t * a) \<le> h * h / (l * l)"
proof -
  have up: "p * b \<le> h * h" "t * a \<le> h * h"
    using assms by (intro mult_mono; linarith)+
  have dn: "l * l \<le> p * b" "l * l \<le> t * a"
    using assms by (intro mult_mono; linarith)+
  have ll: "0 < l * l"
    using assms(1) by simp
  then have ta: "0 < t * a"
    using dn(2) by linarith
  note pos = ll ta
  show "l * l / (h * h) \<le> p * b / (t * a)"
    using dn(1) up(2) pos by (intro frac_le) simp_all
  show "p * b / (t * a) \<le> h * h / (l * l)"
    using up(1) dn(1,2) pos by (intro frac_le) simp_all
qed

lemma float64_probability_error:
  fixes n m :: nat
  assumes m1: "1 \<le> m" and mn: "m \<le> n" and n63: "n < 2 ^ 63"
  obtains a b t p where "float64 (real (n + 1)) = Some a"
    and "float64 (real m) = Some b"
    and "float64_div a b = Some t"
    and "float64_div 1 t = Some p"
    and "\<bar>p - real m / (real n + 1)\<bar> \<le> real m / (real n + 1) / 2 ^ 50"
proof -
  define l h :: real where "l = 1 - 1 / 2 ^ 53" and "h = 1 + 1 / 2 ^ 53"
  have lh: "0 < l" "1 / 2 \<le> l" "h \<le> 2" "0 \<le> h"
    by (simp_all add: l_def h_def)
  define N M :: real where "N = real (n + 1)" and "M = real m"
  have "n + 1 \<le> 2 ^ 63"
    using n63 by simp
  then have "real (n + 1) \<le> real (2 ^ 63)"
    by (rule of_nat_mono)
  then have N: "1 \<le> N" "N \<le> 2 ^ 63"
    unfolding N_def by simp_all
  have M: "1 \<le> M" "M \<le> N"
    unfolding N_def M_def using m1 mn by simp_all
  have tiny: "pow2 (- 1022) \<le> 1 / 2 ^ 70"
    by (simp add: pow2_def)
  have big: "(2::real) ^ 70 \<le> 2 ^ 1023"
    by simp
  obtain a where a: "float64 N = Some a" "N * l \<le> a" "a \<le> N * h"
    unfolding l_def h_def using float64_within[of N] N tiny big by force
  obtain b where b: "float64 M = Some b" "M * l \<le> b" "b \<le> M * h"
    unfolding l_def h_def using float64_within[of M] N M tiny big by force
  have "N * (1 / 2) \<le> N * l"
    using lh N by (intro mult_left_mono; linarith)
  then have ca1: "N / 2 \<le> a"
    using a(2) by linarith
  have "N * h \<le> N * 2"
    using lh N by (intro mult_left_mono; linarith)
  then have ca2: "a \<le> 2 * N"
    using a(3) by linarith
  have "M * (1 / 2) \<le> M * l"
    using lh M by (intro mult_left_mono; linarith)
  then have cb1: "M / 2 \<le> b"
    using b(2) by linarith
  have "M * h \<le> M * 2"
    using lh M by (intro mult_left_mono; linarith)
  then have cb2: "b \<le> 2 * M"
    using b(3) by linarith
  note ca = ca1 ca2 and cb = cb1 cb2
  have pa: "0 < a"
    using ca1 N(1) by linarith
  have pb: "0 < b"
    using cb1 M(1) by linarith
  have x3: "1 / 4 \<le> a / b" "a / b \<le> 2 ^ 65"
    using pb ca cb N M by (simp_all add: field_simps)
  obtain t where t: "float64 (a / b) = Some t" "a / b * l \<le> t" "t \<le> a / b * h"
    unfolding l_def h_def using float64_within[of "a / b"] x3 tiny big by force
  have "1 / 4 * (1 / 2) \<le> a / b * l"
    using x3 lh by (intro mult_mono; linarith)
  then have ct1: "1 / 8 \<le> t"
    using t(2) by linarith
  have "a / b * h \<le> 2 ^ 65 * 2"
    by (rule mult_mono) (use x3 lh in simp_all)
  then have ct2: "t \<le> 2 ^ 66"
    using t(3) by simp
  note ct = ct1 ct2
  from ct1 have pt: "0 < t"
    by linarith
  have x4: "1 / 2 ^ 66 \<le> 1 / t" "1 / t \<le> 8"
    using ct pt by (simp_all add: field_simps)
  obtain p where p: "float64 (1 / t) = Some p" "1 / t * l \<le> p" "p \<le> 1 / t * h"
    unfolding l_def h_def using float64_within[of "1 / t"] x4 tiny big by force
  have d1: "float64_div a b = Some t"
    using pb t(1) by (simp add: float64_div_def)
  have d2: "float64_div 1 t = Some p"
    using pt p(1) by (simp add: float64_div_def)
  have pab: "0 < a / b"
    using pa pb by simp
  have al: "l \<le> a / N" "a / N \<le> h"
    using a N by (simp_all add: field_simps)
  have be: "l \<le> b / M" "b / M \<le> h"
    using b M by (simp_all add: field_simps)
  have g1: "l \<le> t / x" if "0 < x" "x * l \<le> t" for x :: real
    using that by (simp add: pos_le_divide_eq mult.commute)
  have g2: "t / x \<le> h" if "0 < x" "t \<le> x * h" for x :: real
    using that by (simp add: pos_divide_le_eq mult.commute)
  have ta: "l \<le> t / (a / b)" "t / (a / b) \<le> h"
    by (rule g1[OF pab t(2)], rule g2[OF pab t(3)])
  have pi: "l \<le> p * t" "p * t \<le> h"
    using p(2,3) pt by (simp_all add: field_simps)
  note rb = ratio_bounds[OF lh(1) pi be ta al]
  have id: "p = M / N * ((p * t) * (b / M) / (t / (a / b) * (a / N)))"
    using pa pb pt N M by (simp add: field_simps)
  have c1: "1 - 1 / 2 ^ 50 \<le> l * l / (h * h)" and c2: "h * h / (l * l) \<le> 1 + 1 / 2 ^ 50"
    by (simp_all add: l_def h_def)
  let ?r = "M / N"
  let ?rho = "(p * t) * (b / M) / (t / (a / b) * (a / N))"
  have r: "0 < ?r"
    using N M by simp
  have rho: "1 - 1 / 2 ^ 50 \<le> ?rho" "?rho \<le> 1 + 1 / 2 ^ 50"
    using rb c1 c2 by (linarith, linarith)
  have "?r * (1 - 1 / 2 ^ 50) \<le> ?r * ?rho" "?r * ?rho \<le> ?r * (1 + 1 / 2 ^ 50)"
    using rho r by (intro mult_left_mono; linarith)+
  then have "?r * (1 - 1 / 2 ^ 50) \<le> p" "p \<le> ?r * (1 + 1 / 2 ^ 50)"
    using id by simp_all
  then have "?r - ?r / 2 ^ 50 \<le> p" "p \<le> ?r + ?r / 2 ^ 50"
    by (simp_all add: algebra_simps)
  then have "p - ?r \<le> ?r / 2 ^ 50" "- (?r / 2 ^ 50) \<le> p - ?r"
    by simp_all
  then have "\<bar>p - ?r\<bar> \<le> ?r / 2 ^ 50"
    by (simp add: abs_le_iff)
  then have e: "\<bar>p - real m / (real n + 1)\<bar> \<le> real m / (real n + 1) / 2 ^ 50"
    unfolding N_def M_def by (simp add: add.commute)
  show thesis
    by (rule that[OF a(1)[unfolded N_def] b(1)[unfolded M_def] d1 d2 e])
qed

lemma log2_floor_numeral [simp]:
  "log2_floor (numeral k) =
     (if numeral k < (2::nat) then 0 else Suc (log2_floor (numeral k div 2)))"
  by (rule log2_floor.simps)

lemma log2_floor_small [simp]: "log2_floor 0 = 0" "log2_floor 1 = 0" "log2_floor (Suc 0) = 0"
  by (simp_all add: log2_floor.simps)

lemmas float64_eval =
  float64_def float64_div_def exponent_def pow2_def round_half_even_def Let_def

lemma probability_float64_at_rank:
  assumes "1 \<le> m" and "m \<le> n_wet_days amounts"
  shows "return_period_float64 amounts ! (m - 1) =
           (case (float64 (real (n_wet_days amounts + 1)), float64 (real m)) of
              (Some a, Some b) \<Rightarrow> float64_div a b
            | _ \<Rightarrow> None)"
    and "probability_float64 amounts ! (m - 1) =
           (case return_period_float64 amounts ! (m - 1) of
              Some t \<Rightarrow> float64_div 1 t
            | None \<Rightarrow> None)"
proof -
  note i = arange_nth[OF assms] and l = arange_index[OF assms]
  show t: "return_period_float64 amounts ! (m - 1) =
           (case (float64 (real (n_wet_days amounts + 1)), float64 (real m)) of
              (Some a, Some b) \<Rightarrow> float64_div a b
            | _ \<Rightarrow> None)"
    unfolding return_period_float64_def Let_def n_wet_days_def[symmetric]
    by (simp only: nth_map[OF l] i)
  have l2: "m - 1 < length (return_period_float64 amounts)"
    unfolding return_period_float64_def Let_def n_wet_days_def[symmetric]
    using l by (simp only: length_map)
  show "probability_float64 amounts ! (m - 1) =
           (case return_period_float64 amounts ! (m - 1) of
              Some t \<Rightarrow> float64_div 1 t
            | None \<Rightarrow> None)"
    unfolding probability_float64_def by (simp only: nth_map[OF l2])
qed






lemma return_period_model_infinite:
  shows "p_annual (1 / 2 ^ 60) (1 / 2) = Some 0"
    and "return_period_model (1 / 2 ^ 60) (1 / 2) = None"
proof -
  have x: "float64 (1 / 2 ^ 60 * (1 / 2)) = Some (1 / 2 ^ 61)"
    by (simp add: float64_eval)
  have b: "float64 (1 - 1 / 2 ^ 61) = Some 1"
    by (simp add: float64_eval)
  have w: "float64 (1 ^ 365) = Some 1"
    by (simp add: float64_eval)
  have p: "float64 (1 - 1) = Some 0"
    by (simp add: float64_def)
  show a: "p_annual (1 / 2 ^ 60) (1 / 2) = Some 0"
    unfolding p_annual_def by (simp only: x b w p Option.bind.simps)
  show "return_period_model (1 / 2 ^ 60) (1 / 2) = None"
    unfolding return_period_model_def a by (simp add: float64_div_def)
qed

section \<open>The claims\<close>

text \<open>
  C1. With \<open>N_wet \<ge> 1\<close> wet days, the row of rank \<open>m\<close> (position \<open>m - 1\<close> of the sorted
  table) gets the return period \<open>(N_wet + 1) / m\<close>; the first row gets \<open>N_wet + 1\<close> and
  the last \<open>(N_wet + 1) / N_wet\<close>.
\<close>

theorem return_period_of_rank:
  assumes "1 \<le> m" and "m \<le> n_wet_days amounts"
    and "sorts_descending sort_values (dfwet (DataFrame amounts))"
  shows "\<exists>r. estimator sort_values amounts = Inr r \<and>
           rank r ! (m - 1) = m \<and>
           return_period r ! (m - 1) = (real (n_wet_days amounts) + 1) / real m \<and>
           return_period r ! 0 = real (n_wet_days amounts) + 1 \<and>
           return_period r ! (n_wet_days amounts - 1) =
             (real (n_wet_days amounts) + 1) / real (n_wet_days amounts)"
proof -
  have n: "1 \<le> n_wet_days amounts"
    using assms(1,2) by simp
  obtain r where r: "estimator sort_values amounts = Inr r"
    and cols: "rank r = [1..<Suc (n_wet_days amounts)]"
      "return_period r = map (\<lambda>m. real (n_wet_days amounts + 1) / real m) (rank r)"
      "probability r = map (\<lambda>t. 1 / t) (return_period r)"
      "probability_annual_exceedance r =
         map (\<lambda>p. 1 - (1 - p * p_wetdays r) ^ 365) (probability r)"
    using estimator_columns[OF n assms(3)] by blast
  have "rank r ! (m - 1) = m"
    by (rule columns_at_rank(1)[OF assms(1,2) cols])
  moreover have "return_period r ! (m - 1) = (real (n_wet_days amounts) + 1) / real m"
    using columns_at_rank(2)[OF assms(1,2) cols] by simp
  moreover have "return_period r ! 0 = real (n_wet_days amounts) + 1"
    using columns_at_rank(2)[OF le_refl n cols] by simp
  moreover have "return_period r ! (n_wet_days amounts - 1) =
      (real (n_wet_days amounts) + 1) / real (n_wet_days amounts)"
    using columns_at_rank(2)[OF n le_refl cols] by simp
  ultimately show ?thesis
    using r by blast
qed

theorem return_period_of_rank_witness:
  "1 \<le> (2::nat) \<and> 2 \<le> n_wet_days [0, 5, 0, 20, 10] \<and>
   sorts_descending sort_values_stable (dfwet (DataFrame [0, 5, 0, 20, 10])) \<and>
   (\<exists>r. estimator sort_values_stable [0, 5, 0, 20, 10] = Inr r \<and>
      rank r ! (2 - 1) = 2 \<and> return_period r ! (2 - 1) = 2 \<and>
      return_period r ! 0 = 4 \<and> return_period r ! (3 - 1) = 4 / 3)"
proof -
  have n: "n_wet_days [0, 5, 0, 20, 10] = 3"
    by (simp add: n_wet_days_def dfwet_def DataFrame_def)
  have h1: "1 \<le> (2::nat)" by simp
  have h2: "2 \<le> n_wet_days [0, 5, 0, 20, 10]" by (simp add: n)
  have h3: "sorts_descending sort_values_stable (dfwet (DataFrame [0, 5, 0, 20, 10]))"
    by (rule sort_values_stable_sorts)
  show ?thesis
    using return_period_of_rank[OF h1 h2 h3] h2 h3 by (simp add: n)
qed

text \<open>
  C2. For a series of \<open>N \<ge> 1\<close> days with at least one wet day the estimator computes
  \<open>p_wet = N_wet / N\<close>, and the row of rank \<open>m\<close> gets the annual probability
  \<open>1 - (1 - p(m) * p_wet) ^ 365\<close>, where \<open>p(m)\<close> is the probability of that row.
\<close>

theorem annual_exceedance_of_rank:
  assumes "1 \<le> m" and "m \<le> n_wet_days amounts"
    and "sorts_descending sort_values (dfwet (DataFrame amounts))"
  shows "\<exists>r. estimator sort_values amounts = Inr r \<and>
           p_wetdays r = real (n_wet_days amounts) / real (length amounts) \<and>
           probability_annual_exceedance r ! (m - 1) =
             1 - (1 - probability r ! (m - 1) * p_wetdays r) ^ 365 \<and>
           probability_annual_exceedance r ! (m - 1) =
             1 - (1 - (real m / (real (n_wet_days amounts) + 1)) *
                       (real (n_wet_days amounts) / real (length amounts))) ^ 365"
proof -
  obtain r where r: "estimator sort_values amounts = Inr r"
    and w: "p_wetdays r = real (n_wet_days amounts) / real (n_days amounts)"
    and t: "return_period r ! (m - 1) = real (n_wet_days amounts + 1) / real m"
    and p: "probability r ! (m - 1) = 1 / (return_period r ! (m - 1))"
    and a: "probability_annual_exceedance r ! (m - 1) =
           1 - (1 - probability r ! (m - 1) * p_wetdays r) ^ 365"
    using estimator_at_rank[OF assms] by blast
  have "probability r ! (m - 1) = real m / (real (n_wet_days amounts) + 1)"
    unfolding p t by simp
  then have "probability_annual_exceedance r ! (m - 1) =
      1 - (1 - (real m / (real (n_wet_days amounts) + 1)) *
                (real (n_wet_days amounts) / real (length amounts))) ^ 365"
    using a w by (simp only: n_days_eq)
  with r w a show ?thesis
    by (auto simp only: n_days_eq)
qed

theorem annual_exceedance_of_rank_witness:
  "1 \<le> (1::nat) \<and> 1 \<le> n_wet_days [0, 5, 0, 20, 10] \<and>
   sorts_descending sort_values_stable (dfwet (DataFrame [0, 5, 0, 20, 10])) \<and>
   (\<exists>r. estimator sort_values_stable [0, 5, 0, 20, 10] = Inr r \<and>
      p_wetdays r = 3 / 5 \<and>
      probability_annual_exceedance r ! (1 - 1) = 1 - (1 - (1 / 4) * (3 / 5)) ^ 365)"
proof -
  have n: "n_wet_days [0, 5, 0, 20, 10] = 3"
    by (simp add: n_wet_days_def dfwet_def DataFrame_def)
  have h1: "1 \<le> (1::nat)" by simp
  have h2: "1 \<le> n_wet_days [0, 5, 0, 20, 10]" by (simp add: n)
  have h3: "sorts_descending sort_values_stable (dfwet (DataFrame [0, 5, 0, 20, 10]))"
    by (rule sort_values_stable_sorts)
  obtain r where r: "estimator sort_values_stable [0, 5, 0, 20, 10] = Inr r"
    and w: "p_wetdays r = real (n_wet_days [0, 5, 0, 20, 10]) / real (length [0, 5, 0, 20, 10::real])"
    and a: "probability_annual_exceedance r ! (1 - 1) =
             1 - (1 - (real 1 / (real (n_wet_days [0, 5, 0, 20, 10]) + 1)) *
                       (real (n_wet_days [0, 5, 0, 20, 10]) / real (length [0, 5, 0, 20, 10::real]))) ^ 365"
    using annual_exceedance_of_rank[OF h1 h2 h3] by blast
  have "p_wetdays r = 3 / 5"
    using w by (simp add: n)
  moreover have "probability_annual_exceedance r ! (1 - 1) = 1 - (1 - (1 / 4) * (3 / 5)) ^ 365"
    unfolding a n by (simp only: of_nat_numeral of_nat_1 length_Cons list.size) simp
  ultimately show ?thesis
    using r h2 h3 by blast
qed

text \<open>
  C4. The claim reads: the estimator fails exactly when the series is empty, or has no
  wet day, or holds a negative amount. The notebook has no check of its input. For the
  series \<open>[0]\<close>, which has no wet day, it returns \<open>p_wet = 0\<close> and an empty table; for
  the series \<open>[-3, 5]\<close> it returns the table of the one wet day.
\<close>

theorem no_error_for_dry_or_negative_counterexample:
  "estimator sort_values_stable [0] =
     Inr \<lparr>p_wetdays = 0, df_sorted = [], rank = [], return_period = [],
          probability = [], probability_annual_exceedance = []\<rparr> \<and>
   estimator sort_values_stable [- 3, 5] =
     Inr \<lparr>p_wetdays = 1 / 2, df_sorted = [\<lparr>day = 2, precipitation = 5\<rparr>], rank = [1],
          return_period = [2], probability = [1 / 2],
          probability_annual_exceedance = [1 - (1 - 1 / 2 * (1 / 2)) ^ 365]\<rparr>"
  by (simp add: estimator_def DataFrame_def dfwet_def sort_values_stable_def Let_def)

text \<open>
  C4, as the code has it. The estimator fails exactly when the series is empty
  (\<open>N = 0\<close>), with the \<open>ZeroDivisionError\<close> of \<open>n_wet_days / n_days\<close>, and then it
  returns nothing. For every other series it returns the whole result: the table holds
  the days with a positive amount and no others, so a series without wet days gives an
  empty table, and negative amounts count as dry. No number of the result comes from
  a division by zero: \<open>N\<close> is positive, every rank is at least 1 and every return period
  is positive.
\<close>

theorem estimator_fails_only_on_empty_series:
  assumes "sorts_descending sort_values (dfwet (DataFrame amounts))"
  shows "(estimator sort_values amounts = Inl ZeroDivisionError \<longleftrightarrow> amounts = []) \<and>
         (amounts \<noteq> [] \<longrightarrow>
            (\<exists>r. estimator sort_values amounts = Inr r \<and>
               p_wetdays r = real (n_wet_days amounts) / real (length amounts) \<and>
               0 < length amounts \<and>
               length (df_sorted r) = n_wet_days amounts \<and>
               length (rank r) = n_wet_days amounts \<and>
               length (return_period r) = n_wet_days amounts \<and>
               length (probability r) = n_wet_days amounts \<and>
               length (probability_annual_exceedance r) = n_wet_days amounts \<and>
               (\<forall>x \<in> set (df_sorted r). 0 < precipitation x) \<and>
               (\<forall>m \<in> set (rank r). 1 \<le> m) \<and>
               (\<forall>t \<in> set (return_period r). 0 < t)))"
proof (cases "amounts = []")
  case True
  then show ?thesis
    by (simp add: estimator_def DataFrame_def Let_def)
next
  case False
  let ?n = "n_wet_days amounts"
  note e = estimator_returns[OF False assms]
  let ?r = "projr (estimator sort_values amounts)"
  have r: "estimator sort_values amounts = Inr ?r"
    unfolding e by simp
  have w: "p_wetdays ?r = real ?n / real (length amounts)"
    unfolding e by (simp add: n_days_eq)
  have len: "length [1..<Suc ?n] = ?n"
    by (simp del: upt_Suc)
  have l1: "length (df_sorted ?r) = ?n"
    unfolding e n_wet_days_def using sorts_descending_length[OF assms] by simp
  have l2: "length (rank ?r) = ?n" "length (return_period ?r) = ?n"
    "length (probability ?r) = ?n" "length (probability_annual_exceedance ?r) = ?n"
    unfolding e using len by (simp_all del: upt_Suc)
  have "set (df_sorted ?r) = set (dfwet (DataFrame amounts))"
    unfolding e using assms mset_eq_setD[of "sort_values (dfwet (DataFrame amounts))"]
    by (simp add: sorts_descending_def)
  then have pos: "\<forall>x \<in> set (df_sorted ?r). 0 < precipitation x"
    by (simp add: dfwet_def)
  have ranks: "\<forall>m \<in> set (rank ?r). 1 \<le> m"
    unfolding e by (simp del: upt_Suc)
  have periods: "\<forall>t \<in> set (return_period ?r). 0 < t"
    unfolding e by (auto simp del: upt_Suc)
  have "estimator sort_values amounts \<noteq> Inl ZeroDivisionError"
    unfolding e by simp
  moreover have "\<exists>r. estimator sort_values amounts = Inr r \<and>
               p_wetdays r = real (n_wet_days amounts) / real (length amounts) \<and>
               0 < length amounts \<and>
               length (df_sorted r) = n_wet_days amounts \<and>
               length (rank r) = n_wet_days amounts \<and>
               length (return_period r) = n_wet_days amounts \<and>
               length (probability r) = n_wet_days amounts \<and>
               length (probability_annual_exceedance r) = n_wet_days amounts \<and>
               (\<forall>x \<in> set (df_sorted r). 0 < precipitation x) \<and>
               (\<forall>m \<in> set (rank r). 1 \<le> m) \<and>
               (\<forall>t \<in> set (return_period r). 0 < t)"
    using False by (intro exI[of _ ?r] conjI r w l1 l2 pos ranks periods) simp
  ultimately show ?thesis
    using False by simp
qed

theorem estimator_fails_only_on_empty_series_witness:
  "sorts_descending sort_values_stable (dfwet (DataFrame [])) \<and>
   estimator sort_values_stable [] = Inl ZeroDivisionError \<and>
   sorts_descending sort_values_stable (dfwet (DataFrame [- 3, 5])) \<and>
   (\<exists>r. estimator sort_values_stable [- 3, 5] = Inr r \<and>
      p_wetdays r = 1 / 2 \<and> length (df_sorted r) = 1 \<and> length (rank r) = 1)"
proof -
  have n: "n_wet_days [- 3, 5] = 1"
    by (simp add: n_wet_days_def dfwet_def DataFrame_def)
  have h0: "sorts_descending sort_values_stable (dfwet (DataFrame []))"
    by (simp add: sorts_descending_def sort_values_stable_def dfwet_def DataFrame_def)
  have h1: "sorts_descending sort_values_stable (dfwet (DataFrame [- 3, 5]))"
    by (simp add: sorts_descending_def sort_values_stable_def dfwet_def DataFrame_def)
  have "estimator sort_values_stable [] = Inl ZeroDivisionError"
    using estimator_fails_only_on_empty_series[OF h0] by simp
  moreover have "\<exists>r. estimator sort_values_stable [- 3, 5] = Inr r \<and>
      p_wetdays r = 1 / 2 \<and> length (df_sorted r) = 1 \<and> length (rank r) = 1"
    using estimator_fails_only_on_empty_series[OF h1] by (auto simp add: n)
  ultimately show ?thesis
    using h0 h1 by blast
qed

text \<open>
  C5. The claim reads: the probability of the row of rank \<open>m\<close>, computed as the
  reciprocal of the return period, equals \<open>m / (N_wet + 1)\<close> exactly. The two divisions
  are done in double precision and each one rounds. With 8 wet days the row of rank 7
  gets the return period \<open>5790342378047781 / 2^52\<close> (the double nearest to \<open>9/7\<close>) and
  the probability \<open>7005599420354104 / 2^53\<close>, printed \<open>0.7777777777777777\<close>. That is
  neither \<open>7/9\<close> nor the double nearest to \<open>7/9\<close>, which is
  \<open>7005599420354105 / 2^53\<close>, printed \<open>0.7777777777777778\<close>.
\<close>

theorem probability_not_exact_counterexample:
  "n_wet_days [1, 2, 3, 4, 5, 6, 7, 8] = 8 \<and>
   return_period_float64 [1, 2, 3, 4, 5, 6, 7, 8] ! (7 - 1) = Some (5790342378047781 / 2 ^ 52) \<and>
   probability_float64 [1, 2, 3, 4, 5, 6, 7, 8] ! (7 - 1) = Some (7005599420354104 / 2 ^ 53) \<and>
   float64 (7 / (8 + 1)) = Some (7005599420354105 / 2 ^ 53) \<and>
   (7005599420354104 / 2 ^ 53 :: real) \<noteq> 7 / (8 + 1) \<and>
   (7005599420354104 / 2 ^ 53 :: real) \<noteq> 7005599420354105 / 2 ^ 53"
proof -
  have n: "n_wet_days [1, 2, 3, 4, 5, 6, 7, 8] = 8"
    by (simp add: n_wet_days_def dfwet_def DataFrame_def)
  have m: "1 \<le> (7::nat)" "7 \<le> n_wet_days [1, 2, 3, 4, 5, 6, 7, 8]"
    by (simp_all add: n)
  have c9: "float64 (real (8 + 1)) = Some 9"
    by (simp add: float64_eval)
  have c7: "float64 (real 7) = Some 7"
    by (simp add: float64_eval)
  have t: "float64_div 9 7 = Some (5790342378047781 / 2 ^ 52)"
    by (simp add: float64_eval)
  have p: "float64_div 1 (5790342378047781 / 2 ^ 52) = Some (7005599420354104 / 2 ^ 53)"
    by (simp add: float64_eval)
  have q: "float64 (7 / (8 + 1)) = Some (7005599420354105 / 2 ^ 53)"
    by (simp add: float64_eval)
  have rt: "return_period_float64 [1, 2, 3, 4, 5, 6, 7, 8] ! (7 - 1) =
      Some (5790342378047781 / 2 ^ 52)"
    unfolding probability_float64_at_rank(1)[OF m] n
    by (simp only: c9 c7 t option.case prod.case)
  have pr: "probability_float64 [1, 2, 3, 4, 5, 6, 7, 8] ! (7 - 1) =
      Some (7005599420354104 / 2 ^ 53)"
    unfolding probability_float64_at_rank(2)[OF m]
    by (simp only: rt p option.case)
  show ?thesis
    using n rt pr q by simp
qed

text \<open>
  C5, as the code has it. With \<open>N_wet \<ge> 1\<close> wet days, the probability of the row of rank
  \<open>m\<close> is computed as the reciprocal of its return period. In exact arithmetic it
  equals \<open>m / (N_wet + 1)\<close>. In the double precision of the code (with fewer than
  \<open>2^63\<close> wet days, the range of the integer column) it is a finite double that equals
  \<open>m / (N_wet + 1)\<close> up to a relative error of \<open>2^(-50)\<close>.
\<close>

theorem probability_of_rank:
  assumes "1 \<le> m" and "m \<le> n_wet_days amounts"
    and "sorts_descending sort_values (dfwet (DataFrame amounts))"
    and "n_wet_days amounts < 2 ^ 63"
  shows "(\<exists>r. estimator sort_values amounts = Inr r \<and>
            rank r ! (m - 1) = m \<and>
            probability r ! (m - 1) = 1 / (return_period r ! (m - 1)) \<and>
            probability r ! (m - 1) = real m / (real (n_wet_days amounts) + 1)) \<and>
         (\<exists>t p. return_period_float64 amounts ! (m - 1) = Some t \<and>
            probability_float64 amounts ! (m - 1) = Some p \<and>
            float64_div 1 t = Some p \<and>
            \<bar>p - real m / (real (n_wet_days amounts) + 1)\<bar> \<le>
              real m / (real (n_wet_days amounts) + 1) / 2 ^ 50)"
proof -
  obtain r where r: "estimator sort_values amounts = Inr r"
    and k: "rank r ! (m - 1) = m"
    and t: "return_period r ! (m - 1) = real (n_wet_days amounts + 1) / real m"
    and p: "probability r ! (m - 1) = 1 / (return_period r ! (m - 1))"
    using estimator_at_rank[OF assms(1,2,3)] by blast
  have "probability r ! (m - 1) = real m / (real (n_wet_days amounts) + 1)"
    unfolding p t by simp
  with r k p have exact: "\<exists>r. estimator sort_values amounts = Inr r \<and>
            rank r ! (m - 1) = m \<and>
            probability r ! (m - 1) = 1 / (return_period r ! (m - 1)) \<and>
            probability r ! (m - 1) = real m / (real (n_wet_days amounts) + 1)"
    by blast
  obtain a b t' p' where f: "float64 (real (n_wet_days amounts + 1)) = Some a"
    "float64 (real m) = Some b" "float64_div a b = Some t'" "float64_div 1 t' = Some p'"
    and e: "\<bar>p' - real m / (real (n_wet_days amounts) + 1)\<bar> \<le>
      real m / (real (n_wet_days amounts) + 1) / 2 ^ 50"
    using float64_probability_error[OF assms(1,2,4)] by blast
  have rt: "return_period_float64 amounts ! (m - 1) = Some t'"
    unfolding probability_float64_at_rank(1)[OF assms(1,2)]
    by (simp only: f option.case prod.case)
  have pr: "probability_float64 amounts ! (m - 1) = Some p'"
    unfolding probability_float64_at_rank(2)[OF assms(1,2)]
    by (simp only: rt f option.case)
  from exact rt pr f(4) e show ?thesis
    by blast
qed

theorem probability_of_rank_witness:
  "1 \<le> (3::nat) \<and> 3 \<le> n_wet_days [0, 5, 0, 20, 10] \<and>
   sorts_descending sort_values_stable (dfwet (DataFrame [0, 5, 0, 20, 10])) \<and>
   n_wet_days [0, 5, 0, 20, 10] < 2 ^ 63 \<and>
   (\<exists>r. estimator sort_values_stable [0, 5, 0, 20, 10] = Inr r \<and>
      rank r ! (3 - 1) = 3 \<and> probability r ! (3 - 1) = 3 / 4) \<and>
   (\<exists>p. probability_float64 [0, 5, 0, 20, 10] ! (3 - 1) = Some p \<and>
      \<bar>p - 3 / 4\<bar> \<le> 3 / 4 / 2 ^ 50)"
proof -
  have n: "n_wet_days [0, 5, 0, 20, 10] = 3"
    by (simp add: n_wet_days_def dfwet_def DataFrame_def)
  have h1: "1 \<le> (3::nat)" by simp
  have h2: "3 \<le> n_wet_days [0, 5, 0, 20, 10]" by (simp add: n)
  have h3: "sorts_descending sort_values_stable (dfwet (DataFrame [0, 5, 0, 20, 10]))"
    by (rule sort_values_stable_sorts)
  have h4: "n_wet_days [0, 5, 0, 20, 10] < 2 ^ 63" by (simp add: n)
  show ?thesis
    using probability_of_rank[OF h1 h2 h3 h4] h2 h3 h4 by (auto simp add: n)
qed




text \<open>
  C7. With \<open>N_wet \<ge> 1\<close> wet days, the ranks given to the rows of the sorted table are
  the numbers \<open>1, \<dots>, N_wet\<close>, each once, and the rows that receive them are exactly the
  wet days.
\<close>

theorem ranks_permutation:
  assumes "1 \<le> n_wet_days amounts"
    and "sorts_descending sort_values (dfwet (DataFrame amounts))"
  shows "\<exists>r. estimator sort_values amounts = Inr r \<and>
           length (rank r) = n_wet_days amounts \<and>
           length (df_sorted r) = n_wet_days amounts \<and>
           mset (df_sorted r) = mset (dfwet (DataFrame amounts)) \<and>
           distinct (rank r) \<and>
           set (rank r) = {1..n_wet_days amounts}"
proof -
  obtain r where r: "estimator sort_values amounts = Inr r"
    and s: "df_sorted r = sort_values (dfwet (DataFrame amounts))"
    and k: "rank r = [1..<Suc (n_wet_days amounts)]"
    using estimator_columns[OF assms] by blast
  have "length (rank r) = n_wet_days amounts"
    unfolding k by (simp del: upt_Suc)
  moreover have "length (df_sorted r) = n_wet_days amounts"
    unfolding s n_wet_days_def by (rule sorts_descending_length[OF assms(2)])
  moreover have "mset (df_sorted r) = mset (dfwet (DataFrame amounts))"
    unfolding s using assms(2) by (simp add: sorts_descending_def)
  moreover have "distinct (rank r)"
    unfolding k by (rule distinct_upt)
  moreover have "set (rank r) = {1..n_wet_days amounts}"
    unfolding k by (simp only: set_upt atLeastLessThanSuc_atLeastAtMost)
  ultimately show ?thesis
    using r by blast
qed

theorem ranks_permutation_witness:
  "1 \<le> n_wet_days [0, 5, 0, 20, 10] \<and>
   sorts_descending sort_values_stable (dfwet (DataFrame [0, 5, 0, 20, 10])) \<and>
   (\<exists>r. estimator sort_values_stable [0, 5, 0, 20, 10] = Inr r \<and>
      length (rank r) = 3 \<and> length (df_sorted r) = 3 \<and>
      distinct (rank r) \<and> set (rank r) = {1..3})"
proof -
  have n: "n_wet_days [0, 5, 0, 20, 10] = 3"
    by (simp add: n_wet_days_def dfwet_def DataFrame_def)
  have h1: "1 \<le> n_wet_days [0, 5, 0, 20, 10]" by (simp add: n)
  have h2: "sorts_descending sort_values_stable (dfwet (DataFrame [0, 5, 0, 20, 10]))"
    by (rule sort_values_stable_sorts)
  show ?thesis
    using ranks_permutation[OF h1 h2] h1 h2 unfolding n by blast
qed

text \<open>
  C8. The claim reads: with \<open>N_wet \<ge> 2\<close> wet days the return period does not decrease
  as the rank grows. The return period is \<open>(N_wet + 1) / m\<close> and shrinks as the rank
  \<open>m\<close> grows. For the series \<open>[20, 10]\<close> rank 1 has return period 3 and rank 2 has
  return period \<open>3/2\<close>.
\<close>

theorem return_period_not_increasing_counterexample:
  "estimator sort_values_stable [20, 10] =
     Inr \<lparr>p_wetdays = 1,
          df_sorted = [\<lparr>day = 1, precipitation = 20\<rparr>, \<lparr>day = 2, precipitation = 10\<rparr>],
          rank = [1, 2],
          return_period = [3, 3 / 2],
          probability = [1 / 3, 2 / 3],
          probability_annual_exceedance = [1 - (1 - 1 / 3) ^ 365, 1 - (1 - 2 / 3) ^ 365]\<rparr> \<and>
   \<not> ([3, 3 / 2] ! (1 - 1) \<le> ([3, 3 / 2 :: real]) ! (2 - 1))"
  by (simp add: estimator_def DataFrame_def dfwet_def sort_values_stable_def Let_def)

text \<open>
  C8, as the code has it. With \<open>N_wet \<ge> 2\<close> wet days the return period strictly
  decreases as the rank grows: for ranks \<open>m1 < m2\<close> the return period of \<open>m2\<close> is below
  that of \<open>m1\<close>.
\<close>

theorem return_period_decreasing:
  assumes "1 \<le> m1" and "m1 < m2" and "m2 \<le> n_wet_days amounts"
    and "sorts_descending sort_values (dfwet (DataFrame amounts))"
  shows "\<exists>r. estimator sort_values amounts = Inr r \<and>
           rank r ! (m1 - 1) = m1 \<and> rank r ! (m2 - 1) = m2 \<and>
           return_period r ! (m2 - 1) < return_period r ! (m1 - 1)"
proof -
  have le1: "m1 \<le> n_wet_days amounts" and le2: "1 \<le> m2"
    using assms(1,2,3) by simp_all
  obtain r where r: "estimator sort_values amounts = Inr r"
    and k1: "rank r ! (m1 - 1) = m1"
    and t1: "return_period r ! (m1 - 1) = real (n_wet_days amounts + 1) / real m1"
    using estimator_at_rank[OF assms(1) le1 assms(4)] by blast
  obtain r' where r': "estimator sort_values amounts = Inr r'"
    and k2: "rank r' ! (m2 - 1) = m2"
    and t2: "return_period r' ! (m2 - 1) = real (n_wet_days amounts + 1) / real m2"
    using estimator_at_rank[OF le2 assms(3,4)] by blast
  have same: "r' = r"
    using r r' by simp
  have "0 < real m1" "real m1 < real m2"
    using assms(1,2) by simp_all
  then have "real (n_wet_days amounts + 1) / real m2 < real (n_wet_days amounts + 1) / real m1"
    by (simp add: frac_less2)
  then have "return_period r ! (m2 - 1) < return_period r ! (m1 - 1)"
    using t1 t2 same by simp
  with r k1 k2 same show ?thesis
    by blast
qed

theorem return_period_decreasing_witness:
  "1 \<le> (1::nat) \<and> (1::nat) < 2 \<and> 2 \<le> n_wet_days [20, 10] \<and>
   sorts_descending sort_values_stable (dfwet (DataFrame [20, 10])) \<and>
   (\<exists>r. estimator sort_values_stable [20, 10] = Inr r \<and>
      rank r ! (1 - 1) = 1 \<and> rank r ! (2 - 1) = 2 \<and>
      return_period r ! (2 - 1) < return_period r ! (1 - 1))"
proof -
  have n: "n_wet_days [20, 10] = 2"
    by (simp add: n_wet_days_def dfwet_def DataFrame_def)
  have h1: "1 \<le> (1::nat)" by simp
  have h2: "(1::nat) < 2" by simp
  have h3: "2 \<le> n_wet_days [20, 10]" by (simp add: n)
  have h4: "sorts_descending sort_values_stable (dfwet (DataFrame [20, 10]))"
    by (rule sort_values_stable_sorts)
  show ?thesis
    using return_period_decreasing[OF h1 h2 h3 h4] h3 h4 by (auto simp add: n)
qed

text \<open>
  C9. The series \<open>[0, 5, 0, 20, 10]\<close> has \<open>N = 5\<close> days, of which \<open>N_wet = 3\<close> are wet
  with the amounts \<open>[5, 20, 10]\<close>. Sorted they are \<open>[20, 10, 5]\<close> with the ranks
  \<open>[1, 2, 3]\<close>, the return periods \<open>[4, 2, 4/3]\<close> and the probabilities
  \<open>[0.25, 0.5, 0.75]\<close>, and \<open>p_wet\<close> is \<open>0.6\<close>.
\<close>

theorem concrete_scenario:
  assumes "sorts_descending sort_values (dfwet (DataFrame [0, 5, 0, 20, 10]))"
  shows "n_days [0, 5, 0, 20, 10] = 5 \<and>
         n_wet_days [0, 5, 0, 20, 10] = 3 \<and>
         map precipitation (dfwet (DataFrame [0, 5, 0, 20, 10])) = [5, 20, 10] \<and>
         (\<exists>r. estimator sort_values [0, 5, 0, 20, 10] = Inr r \<and>
            df_sorted r = [\<lparr>day = 4, precipitation = 20\<rparr>, \<lparr>day = 5, precipitation = 10\<rparr>,
                           \<lparr>day = 2, precipitation = 5\<rparr>] \<and>
            map precipitation (df_sorted r) = [20, 10, 5] \<and>
            rank r = [1, 2, 3] \<and>
            return_period r = [4, 2, 4 / 3] \<and>
            probability r = [0.25, 0.5, 0.75] \<and>
            p_wetdays r = 0.6)"
proof -
  let ?a = "[0, 5, 0, 20, 10] :: real list"
  have wet: "dfwet (DataFrame ?a) =
      [\<lparr>day = 2, precipitation = 5\<rparr>, \<lparr>day = 4, precipitation = 20\<rparr>,
       \<lparr>day = 5, precipitation = 10\<rparr>]"
    by (simp add: dfwet_def DataFrame_def)
  have N: "n_days ?a = 5"
    by (simp add: n_days_eq)
  have n: "n_wet_days ?a = 3"
    by (simp add: n_wet_days_def wet)
  have "inj_on precipitation (set (dfwet (DataFrame ?a)))"
    unfolding wet by simp
  then have "sort_values (dfwet (DataFrame ?a)) = sort_values_stable (dfwet (DataFrame ?a))"
    by (rule descending_sort_unique[OF assms])
  also have "\<dots> = [\<lparr>day = 4, precipitation = 20\<rparr>, \<lparr>day = 5, precipitation = 10\<rparr>,
                      \<lparr>day = 2, precipitation = 5\<rparr>]"
    unfolding wet by (simp add: sort_values_stable_def)
  finally have sorted: "sort_values (dfwet (DataFrame ?a)) =
      [\<lparr>day = 4, precipitation = 20\<rparr>, \<lparr>day = 5, precipitation = 10\<rparr>,
       \<lparr>day = 2, precipitation = 5\<rparr>]" .
  have ne: "?a \<noteq> []"
    by simp
  have ranks: "[1..<Suc 3] = [1, 2, 3]"
    by (simp add: upt_rec)
  note e = estimator_returns[OF ne assms, unfolded n N sorted ranks]
  have "\<exists>r. estimator sort_values ?a = Inr r \<and>
            df_sorted r = [\<lparr>day = 4, precipitation = 20\<rparr>, \<lparr>day = 5, precipitation = 10\<rparr>,
                           \<lparr>day = 2, precipitation = 5\<rparr>] \<and>
            map precipitation (df_sorted r) = [20, 10, 5] \<and>
            rank r = [1, 2, 3] \<and>
            return_period r = [4, 2, 4 / 3] \<and>
            probability r = [0.25, 0.5, 0.75] \<and>
            p_wetdays r = 0.6"
    unfolding e by simp
  then show ?thesis
    using N n wet by simp
qed

theorem concrete_scenario_witness:
  "sorts_descending sort_values_stable (dfwet (DataFrame [0, 5, 0, 20, 10])) \<and>
   n_days [0, 5, 0, 20, 10] = 5 \<and>
   n_wet_days [0, 5, 0, 20, 10] = 3 \<and>
   (\<exists>r. estimator sort_values_stable [0, 5, 0, 20, 10] = Inr r \<and>
      map precipitation (df_sorted r) = [20, 10, 5] \<and>
      rank r = [1, 2, 3] \<and>
      return_period r = [4, 2, 4 / 3] \<and>
      probability r = [0.25, 0.5, 0.75] \<and>
      p_wetdays r = 0.6)"
proof -
  have h: "sorts_descending sort_values_stable (dfwet (DataFrame [0, 5, 0, 20, 10]))"
    by (simp add: sorts_descending_def sort_values_stable_def dfwet_def DataFrame_def)
  show ?thesis
    using concrete_scenario[OF h] h by auto
qed

text \<open>
  C10. For a series with at least one wet day, in exact arithmetic: the probability of
  every rank is positive and at most \<open>N_wet / (N_wet + 1)\<close>, which is below 1; every
  annual probability lies strictly between 0 and 1; every return period is at least
  \<open>(N_wet + 1) / N_wet\<close>, which is above 1.
\<close>

theorem estimates_strictly_bounded:
  assumes "1 \<le> m" and "m \<le> n_wet_days amounts"
    and "sorts_descending sort_values (dfwet (DataFrame amounts))"
  shows "\<exists>r. estimator sort_values amounts = Inr r \<and>
           0 < probability r ! (m - 1) \<and>
           probability r ! (m - 1) \<le>
             real (n_wet_days amounts) / (real (n_wet_days amounts) + 1) \<and>
           real (n_wet_days amounts) / (real (n_wet_days amounts) + 1) < 1 \<and>
           0 < probability_annual_exceedance r ! (m - 1) \<and>
           probability_annual_exceedance r ! (m - 1) < 1 \<and>
           (real (n_wet_days amounts) + 1) / real (n_wet_days amounts) \<le>
             return_period r ! (m - 1) \<and>
           1 < (real (n_wet_days amounts) + 1) / real (n_wet_days amounts)"
proof -
  let ?n = "real (n_wet_days amounts)"
  obtain r where r: "estimator sort_values amounts = Inr r"
    and w: "p_wetdays r = ?n / real (n_days amounts)"
    and t: "return_period r ! (m - 1) = real (n_wet_days amounts + 1) / real m"
    and p: "probability r ! (m - 1) = 1 / (return_period r ! (m - 1))"
    and a: "probability_annual_exceedance r ! (m - 1) =
           1 - (1 - probability r ! (m - 1) * p_wetdays r) ^ 365"
    using estimator_at_rank[OF assms] by blast
  have n: "1 \<le> n_wet_days amounts"
    using assms(1,2) by simp
  have m: "0 < real m" "real m \<le> ?n" "0 < ?n"
    using assms(1,2) by simp_all
  have pm: "probability r ! (m - 1) = real m / (?n + 1)"
    unfolding p t by simp
  have p_pos: "0 < probability r ! (m - 1)"
    unfolding pm using m by simp
  have p_le: "probability r ! (m - 1) \<le> ?n / (?n + 1)"
    unfolding pm using m by (simp add: divide_right_mono)
  have top: "?n / (?n + 1) < 1"
    using m by simp
  have wb: "0 < p_wetdays r" "p_wetdays r \<le> 1"
    unfolding w by (rule wet_fraction_bounds[OF n])+
  have x_pos: "0 < probability r ! (m - 1) * p_wetdays r"
    using p_pos wb(1) by simp
  have "probability r ! (m - 1) * p_wetdays r \<le> probability r ! (m - 1) * 1"
    using p_pos wb(2) by (intro mult_left_mono) simp_all
  then have x_less: "probability r ! (m - 1) * p_wetdays r < 1"
    using p_le top by linarith
  note ab = annualized_inside_unit_interval[OF x_pos x_less, folded a]
  have t_ge: "(?n + 1) / ?n \<le> return_period r ! (m - 1)"
    unfolding t using m by (simp add: frac_le)
  have t_low: "1 < (?n + 1) / ?n"
    using m by simp
  show ?thesis
    using r p_pos p_le top ab t_ge t_low by blast
qed

theorem estimates_strictly_bounded_witness:
  "1 \<le> (3::nat) \<and> 3 \<le> n_wet_days [0, 5, 0, 20, 10] \<and>
   sorts_descending sort_values_stable (dfwet (DataFrame [0, 5, 0, 20, 10])) \<and>
   (\<exists>r. estimator sort_values_stable [0, 5, 0, 20, 10] = Inr r \<and>
      0 < probability r ! (3 - 1) \<and> probability r ! (3 - 1) \<le> 3 / 4 \<and>
      0 < probability_annual_exceedance r ! (3 - 1) \<and>
      probability_annual_exceedance r ! (3 - 1) < 1 \<and>
      4 / 3 \<le> return_period r ! (3 - 1))"
proof -
  have n: "n_wet_days [0, 5, 0, 20, 10] = 3"
    by (simp add: n_wet_days_def dfwet_def DataFrame_def)
  have h1: "1 \<le> (3::nat)" by simp
  have h2: "3 \<le> n_wet_days [0, 5, 0, 20, 10]" by (simp add: n)
  have h3: "sorts_descending sort_values_stable (dfwet (DataFrame [0, 5, 0, 20, 10]))"
    by (rule sort_values_stable_sorts)
  show ?thesis
    using estimates_strictly_bounded[OF h1 h2 h3] h2 h3 by (auto simp add: n)
qed

end
